theory Spec2Isabelle
  imports Main
begin

section \<open>BFT finality manager: data model\<close>

text \<open>
  A block header as \<^verbatim>\<open>finality_manager.js\<close> reads it. JavaScript numbers that hold heights
  are modelled as \<^typ>\<open>int\<close>: differences such as \<^verbatim>\<open>header.height - processingThreshold\<close>
  go below zero in the source and must do so in the model. Heights are taken to be integers
  that a JavaScript number holds exactly, so that \<^verbatim>\<open>parseInt\<close> of a tally key gives back
  the height the key was written from.
\<close>

record BlockHeader =
  height :: int
  delegatePublicKey :: string
  maxHeightPreviouslyForged :: int
  maxHeightPrevoted :: int
  delegateMinHeightActive :: int

record DelegateState =
  maxPreVoteHeight :: int
  maxPreCommitHeight :: int

text \<open>
  \<^verbatim>\<open>preVotes\<close> and \<^verbatim>\<open>preCommits\<close> are JavaScript objects keyed by height, and the source
  depends on the order in which \<^verbatim>\<open>Object.keys\<close> lists the keys (\<^verbatim>\<open>reverse().find\<close>,
  \<^verbatim>\<open>slice(0, -maxHeaders)\<close>). That order is: first the array-index keys, the integers from 0
  to \<open>2^32 - 2\<close>, in ascending numeric order; then every other key in the order of its
  creation. A tally is the association list of the entries in that order.
\<close>

type_synonym tally = "(int \<times> int) list"

definition is_array_index :: "int \<Rightarrow> bool" where
  "is_array_index k \<longleftrightarrow> 0 \<le> k \<and> k \<le> 4294967294"

text \<open>A new array-index key goes after the smaller array-index keys.\<close>

fun tally_insert_index :: "int \<Rightarrow> int \<Rightarrow> tally \<Rightarrow> tally" where
  "tally_insert_index k v [] = [(k, v)]"
| "tally_insert_index k v (kv # xs) =
     (if is_array_index (fst kv) \<and> fst kv < k then kv # tally_insert_index k v xs
      else (k, v) # kv # xs)"

text \<open>
  \<^verbatim>\<open>obj[k] = v\<close>: an existing key keeps its place; a new array-index key is placed in
  numeric order; any other new key is added at the end.
\<close>

definition tally_set :: "int \<Rightarrow> int \<Rightarrow> tally \<Rightarrow> tally" where
  "tally_set k v t =
     (if k \<in> fst ` set t then map (\<lambda>kv. if fst kv = k then (k, v) else kv) t
      else if is_array_index k then tally_insert_index k v t
      else t @ [(k, v)])"

text \<open>\<^verbatim>\<open>obj[j] || 0\<close>: a missing entry and a zero entry both read as 0.\<close>

definition tally_get0 :: "tally \<Rightarrow> int \<Rightarrow> int" where
  "tally_get0 t j = (case map_of t j of None \<Rightarrow> 0 | Some v \<Rightarrow> v)"

text \<open>\<^verbatim>\<open>obj[j] >= threshold\<close>: false when the entry is missing (\<^verbatim>\<open>undefined >= n\<close>).\<close>

definition tally_ge :: "tally \<Rightarrow> int \<Rightarrow> int \<Rightarrow> bool" where
  "tally_ge t j th = (case map_of t j of None \<Rightarrow> False | Some v \<Rightarrow> v \<ge> th)"

definition tally_delete :: "int \<Rightarrow> tally \<Rightarrow> tally" where
  "tally_delete k t = filter (\<lambda>kv. fst kv \<noteq> k) t"

text \<open>\<^verbatim>\<open>Object.keys(obj).reverse().find(key => obj[key] >= threshold)\<close>\<close>

definition highest_key_reaching :: "tally \<Rightarrow> int \<Rightarrow> int option" where
  "highest_key_reaching t th =
     find (\<lambda>k. tally_ge t k th) (rev (map fst t))"

text \<open>\<^verbatim>\<open>Array.prototype.slice(0, e)\<close>: a negative end counts from the end of the array.\<close>

definition js_slice0 :: "'a list \<Rightarrow> int \<Rightarrow> 'a list" where
  "js_slice0 xs e =
     (if e < 0 then take (nat (int (length xs) + e)) xs else take (nat e) xs)"

subsection \<open>The header list\<close>

text \<open>
  Modelled from the spec: the class \<^verbatim>\<open>HeadersList\<close> (\<^verbatim>\<open>./headers_list\<close>) is not among the
  sources. The specification describes it as ``a bounded ordered sequence of headers, size =
  activeDelegates x 5; supports append (highest only), remove-above(height), get-by-height,
  first, last, top(n); eviction is FIFO on the low-height end when full''.
\<close>

record HeadersList =
  items :: "BlockHeader list"
  hsize :: int

definition hl_length :: "HeadersList \<Rightarrow> int" where
  "hl_length hl = int (length (items hl))"

definition hl_first :: "HeadersList \<Rightarrow> BlockHeader option" where
  "hl_first hl = (case items hl of [] \<Rightarrow> None | x # _ \<Rightarrow> Some x)"

definition hl_last :: "HeadersList \<Rightarrow> BlockHeader option" where
  "hl_last hl = (if items hl = [] then None else Some (last (items hl)))"

text \<open>
  Modelled from the spec: append, highest only; a header that is not above the current last
  one is refused. When the list outgrows its size the oldest (lowest) header is evicted.
\<close>

definition hl_add :: "HeadersList \<Rightarrow> BlockHeader \<Rightarrow> HeadersList option" where
  "hl_add hl h =
     (if items hl \<noteq> [] \<and> height h \<le> height (last (items hl)) then None
      else
        (let xs = items hl @ [h]
         in Some (hl\<lparr>items := (if int (length xs) > hsize hl then tl xs else xs)\<rparr>)))"

text \<open>Modelled from the spec: remove the headers strictly above \<^verbatim>\<open>aboveHeight\<close>.\<close>

definition hl_remove :: "HeadersList \<Rightarrow> int \<Rightarrow> HeadersList" where
  "hl_remove hl aboveHeight = hl\<lparr>items := filter (\<lambda>h. height h \<le> aboveHeight) (items hl)\<rparr>"

text \<open>Modelled from the spec: the header stored at a height, if any.\<close>

definition hl_get :: "HeadersList \<Rightarrow> int \<Rightarrow> BlockHeader option" where
  "hl_get hl n = find (\<lambda>h. height h = n) (items hl)"

text \<open>Modelled from the spec: the last \<open>n\<close> headers.\<close>

definition hl_top :: "HeadersList \<Rightarrow> int \<Rightarrow> BlockHeader list" where
  "hl_top hl n = drop (length (items hl) - nat n) (items hl)"

subsection \<open>The manager\<close>

datatype bft_error =
    InvalidHeaderSchema
  | BFTInvalidAttributeError
  | BFTForkChoiceRuleError
  | BFTChainDisjointError
  | BFTLowerChainBranchError
  | HeadersListAssertion

record FinalityManager =
  activeDelegates :: int
  preVoteThreshold :: int
  preCommitThreshold :: int
  processingThreshold :: int
  maxHeaders :: int
  headers :: HeadersList
  finalizedHeight :: int
  chainMaxHeightPrevoted :: int
  state :: "string \<rightharpoonup> DelegateState"
  preVotes :: tally
  preCommits :: tally
  emitted :: "int list"

text \<open>
  Modelled from the spec: the constant \<^verbatim>\<open>BFT_ROUND_THRESHOLD\<close> (\<^verbatim>\<open>./constant\<close>) is not among
  the sources; the specification gives \<open>processingThreshold = 3D - 1\<close>.
\<close>

definition BFT_ROUND_THRESHOLD :: int where
  "BFT_ROUND_THRESHOLD = 3"

text \<open>\<^verbatim>\<open>Math.ceil((activeDelegates * 2) / 3)\<close> on integers.\<close>

definition ceil_two_thirds :: "int \<Rightarrow> int" where
  "ceil_two_thirds d = (d * 2 + 2) div 3"

text \<open>
  The constructor. Its assertions (\<^verbatim>\<open>activeDelegates > 0\<close>) make it fail with \<open>None\<close>.
\<close>

definition new_FinalityManager :: "int \<Rightarrow> int \<Rightarrow> FinalityManager option" where
  "new_FinalityManager fh d =
     (if d > 0 then
        Some \<lparr> activeDelegates = d,
               preVoteThreshold = ceil_two_thirds d,
               preCommitThreshold = ceil_two_thirds d,
               processingThreshold = d * BFT_ROUND_THRESHOLD - 1,
               maxHeaders = d * 5,
               headers = \<lparr> items = [], hsize = d * 5 \<rparr>,
               finalizedHeight = fh,
               chainMaxHeightPrevoted = 0,
               state = Map.empty,
               preVotes = [],
               preCommits = [],
               emitted = [] \<rparr>
      else None)"

definition minHeight :: "FinalityManager \<Rightarrow> int" where
  "minHeight fm = (case hl_first (headers fm) of Some h \<Rightarrow> height h | None \<Rightarrow> 0)"

definition maxHeight :: "FinalityManager \<Rightarrow> int" where
  "maxHeight fm = (case hl_last (headers fm) of Some h \<Rightarrow> height h | None \<Rightarrow> 0)"

text \<open>
  Modelled from the spec: \<^verbatim>\<open>validateBlockHeader\<close> (\<^verbatim>\<open>./utils\<close>) is not among the sources. The
  specification's data model makes \<open>height\<close> a positive integer and
  \<open>maxHeightPreviouslyForged\<close> a height \<open>\<ge> 0\<close>; a header outside that is refused.
\<close>

definition validateBlockHeader :: "BlockHeader \<Rightarrow> bft_error + bool" where
  "validateBlockHeader h =
     (if height h \<ge> 1 \<and> maxHeightPreviouslyForged h \<ge> 0 then Inr True
      else Inl InvalidHeaderSchema)"

subsection \<open>\<^verbatim>\<open>_getMinValidHeightToPreCommit\<close>\<close>

function minValidLoop ::
  "HeadersList \<Rightarrow> BlockHeader \<Rightarrow> int \<Rightarrow> int \<Rightarrow> BlockHeader \<Rightarrow> int" where
  "minValidLoop hl header searchTillHeight needleHeight currentBlockHeader =
     (if needleHeight \<ge> searchTillHeight then
        (if needleHeight = maxHeightPreviouslyForged currentBlockHeader then
           (case hl_get hl needleHeight of
              None \<Rightarrow> 0
            | Some previousBlockHeader \<Rightarrow>
                if delegatePublicKey previousBlockHeader \<noteq> delegatePublicKey header
                   \<or> maxHeightPreviouslyForged previousBlockHeader \<ge> needleHeight
                then needleHeight + 1
                else minValidLoop hl header searchTillHeight
                       (maxHeightPreviouslyForged previousBlockHeader) previousBlockHeader)
         else minValidLoop hl header searchTillHeight (needleHeight - 1) currentBlockHeader)
      else max (needleHeight + 1) searchTillHeight)"
  by pat_completeness auto
termination
  by (relation "measure (\<lambda>(hl, header, st, n, cur). nat (n - st + 1))") auto

declare minValidLoop.simps [simp del]

definition getMinValidHeightToPreCommit :: "FinalityManager \<Rightarrow> BlockHeader \<Rightarrow> int" where
  "getMinValidHeightToPreCommit fm header =
     (let searchTillHeight = max (minHeight fm) (height header - processingThreshold fm);
          needleHeight = max (maxHeightPreviouslyForged header)
                             (height header - processingThreshold fm)
      in minValidLoop (headers fm) header searchTillHeight needleHeight header)"

subsection \<open>\<^verbatim>\<open>updatePreVotesPreCommits\<close>\<close>

text \<open>
  The pre-commit loop, \<^verbatim>\<open>for (j = minPreCommitHeight; j <= maxPreCommitHeight; j++)\<close>. It reads
  \<^verbatim>\<open>this.preVotes\<close> and writes \<^verbatim>\<open>this.preCommits\<close> and the delegate state.
\<close>

function preCommitLoop ::
  "tally \<Rightarrow> int \<Rightarrow> int \<Rightarrow> int \<Rightarrow> tally \<Rightarrow> DelegateState \<Rightarrow> tally \<times> DelegateState" where
  "preCommitLoop pv th j maxPreCommit pc ds =
     (if j \<le> maxPreCommit then
        (if tally_ge pv j th
         then preCommitLoop pv th (j + 1) maxPreCommit
                (tally_set j (tally_get0 pc j + 1) pc) (ds\<lparr>maxPreCommitHeight := j\<rparr>)
         else preCommitLoop pv th (j + 1) maxPreCommit pc ds)
      else (pc, ds))"
  by pat_completeness auto
termination
  by (relation "measure (\<lambda>(pv, th, j, hi, pc, ds). nat (hi + 1 - j))") auto

declare preCommitLoop.simps [simp del]

text \<open>The pre-vote loop, \<^verbatim>\<open>for (j = minPreVoteHeight; j <= maxPreVoteHeight; j++)\<close>.\<close>

function preVoteLoop :: "int \<Rightarrow> int \<Rightarrow> tally \<Rightarrow> tally" where
  "preVoteLoop j maxPreVote pv =
     (if j \<le> maxPreVote then
        preVoteLoop (j + 1) maxPreVote (tally_set j (tally_get0 pv j + 1) pv)
      else pv)"
  by pat_completeness auto
termination
  by (relation "measure (\<lambda>(j, hi, pv). nat (hi + 1 - j))") auto

declare preVoteLoop.simps [simp del]

text \<open>
  Every call in the class passes the header, so the fallback \<^verbatim>\<open>|| this.headers.last\<close> of the
  source is never taken and the header is a plain argument here. The boolean is the
  source's return value.
\<close>

definition updatePreVotesPreCommits ::
  "FinalityManager \<Rightarrow> BlockHeader \<Rightarrow> bool \<times> FinalityManager" where
  "updatePreVotesPreCommits fm header =
     (if maxHeightPreviouslyForged header \<ge> height header then (False, fm)
      else
        (let key = delegatePublicKey header;
             delegateState = (case state fm key of
                                Some ds \<Rightarrow> ds
                              | None \<Rightarrow> \<lparr> maxPreVoteHeight = 0, maxPreCommitHeight = 0 \<rparr>);
             minValidHeightToPreCommit = getMinValidHeightToPreCommit fm header;
             minPreCommitHeight =
               max (max (delegateMinHeightActive header) minValidHeightToPreCommit)
                   (maxPreCommitHeight delegateState + 1);
             maxPreCommit = height header - 1;
             (pc, ds1) = preCommitLoop (preVotes fm) (preVoteThreshold fm)
                           minPreCommitHeight maxPreCommit (preCommits fm) delegateState;
             minPreVoteHeight =
               max (max (max (delegateMinHeightActive header)
                             (maxHeightPreviouslyForged header + 1))
                        (maxPreVoteHeight ds1 + 1))
                   (height header - processingThreshold fm);
             maxPreVote = height header;
             pv = preVoteLoop minPreVoteHeight maxPreVote (preVotes fm);
             ds2 = ds1\<lparr>maxPreVoteHeight := maxPreVote\<rparr>
         in (True, fm\<lparr>preVotes := pv, preCommits := pc, state := (state fm)(key \<mapsto> ds2)\<rparr>)))"

subsection \<open>\<^verbatim>\<open>updatePreVotedAndFinalizedHeight\<close> and \<^verbatim>\<open>_cleanup\<close>\<close>

definition updatePreVotedAndFinalizedHeight ::
  "FinalityManager \<Rightarrow> bool \<times> FinalityManager" where
  "updatePreVotedAndFinalizedHeight fm =
     (if hl_length (headers fm) = 0 then (False, fm)
      else
        (let highestHeightPreVoted = highest_key_reaching (preVotes fm) (preVoteThreshold fm);
             fm1 = fm\<lparr>chainMaxHeightPrevoted :=
                        (case highestHeightPreVoted of
                           Some k \<Rightarrow> k
                         | None \<Rightarrow> chainMaxHeightPrevoted fm)\<rparr>;
             highestHeightPreCommitted =
               highest_key_reaching (preCommits fm1) (preCommitThreshold fm1);
             previouslyFinalizedHeight = finalizedHeight fm1;
             fm2 = (case highestHeightPreCommitted of
                      Some k \<Rightarrow> fm1\<lparr>finalizedHeight := k\<rparr>
                    | None \<Rightarrow> fm1);
             fm3 = (if previouslyFinalizedHeight \<noteq> finalizedHeight fm2
                    then fm2\<lparr>emitted := emitted fm2 @ [finalizedHeight fm2]\<rparr>
                    else fm2)
         in (True, fm3)))"

text \<open>
  \<^verbatim>\<open>Object.keys(t).slice(0, -1 * maxHeaders).forEach(key => delete t[key])\<close>
\<close>

definition cleanup_tally :: "int \<Rightarrow> tally \<Rightarrow> tally" where
  "cleanup_tally mh t = fold tally_delete (js_slice0 (map fst t) (- 1 * mh)) t"

definition cleanup :: "FinalityManager \<Rightarrow> FinalityManager" where
  "cleanup fm =
     fm\<lparr>preVotes := cleanup_tally (maxHeaders fm) (preVotes fm),
        preCommits := cleanup_tally (maxHeaders fm) (preCommits fm)\<rparr>"

subsection \<open>\<^verbatim>\<open>verifyBlockHeaders\<close>\<close>

text \<open>\<^verbatim>\<open>this.headers.top(processingThreshold).reverse().find(...)\<close>\<close>

definition findLastBlockForgedByDelegate ::
  "FinalityManager \<Rightarrow> string \<Rightarrow> BlockHeader option" where
  "findLastBlockForgedByDelegate fm key =
     find (\<lambda>h. delegatePublicKey h = key)
          (rev (hl_top (headers fm) (processingThreshold fm)))"

definition verifyBlockHeaders :: "FinalityManager \<Rightarrow> BlockHeader \<Rightarrow> bft_error + bool" where
  "verifyBlockHeaders fm blockHeader =
     (if hl_length (headers fm) \<ge> processingThreshold fm
         \<and> maxHeightPrevoted blockHeader \<noteq> chainMaxHeightPrevoted fm
      then Inl BFTInvalidAttributeError
      else
        (case findLastBlockForgedByDelegate fm (delegatePublicKey blockHeader) of
           None \<Rightarrow> Inr True
         | Some delegateLastBlock \<Rightarrow>
             (let higherMaxHeightPreviouslyForged =
                    (maxHeightPreviouslyForged delegateLastBlock
                       > maxHeightPreviouslyForged blockHeader);
                  sameMaxHeightPreviouslyForged =
                    (maxHeightPreviouslyForged delegateLastBlock
                       = maxHeightPreviouslyForged blockHeader);
                  higherMaxHeightPrevoted =
                    (maxHeightPrevoted delegateLastBlock > maxHeightPrevoted blockHeader);
                  sameMaxHeightPrevoted =
                    (maxHeightPrevoted delegateLastBlock = maxHeightPrevoted blockHeader);
                  higherHeight = (height delegateLastBlock > height blockHeader);
                  (earlierBlock, laterBlock) =
                    (if higherMaxHeightPreviouslyForged
                        \<or> (sameMaxHeightPreviouslyForged \<and> higherMaxHeightPrevoted)
                        \<or> (sameMaxHeightPreviouslyForged \<and> sameMaxHeightPrevoted
                              \<and> higherHeight)
                     then (blockHeader, delegateLastBlock)
                     else (delegateLastBlock, blockHeader))
              in if maxHeightPrevoted earlierBlock = maxHeightPrevoted laterBlock
                    \<and> height earlierBlock \<ge> height laterBlock
                 then Inl BFTForkChoiceRuleError
                 else if height earlierBlock > maxHeightPreviouslyForged laterBlock
                 then Inl BFTChainDisjointError
                 else if maxHeightPrevoted earlierBlock > maxHeightPrevoted laterBlock
                 then Inl BFTLowerChainBranchError
                 else Inr True)))"

subsection \<open>\<^verbatim>\<open>addBlockHeader\<close>, \<^verbatim>\<open>recompute\<close>, \<^verbatim>\<open>removeBlockHeaders\<close>\<close>

text \<open>
  A throw is the value \<open>Inl (e, fm')\<close>: the error together with the manager as the call
  leaves it behind, so that a partial mutation before a throw would be visible.
\<close>

definition addBlockHeader ::
  "FinalityManager \<Rightarrow> BlockHeader \<Rightarrow> (bft_error \<times> FinalityManager) + FinalityManager" where
  "addBlockHeader fm blockHeader =
     (case validateBlockHeader blockHeader of
        Inl e \<Rightarrow> Inl (e, fm)
      | Inr _ \<Rightarrow>
          (case verifyBlockHeaders fm blockHeader of
             Inl e \<Rightarrow> Inl (e, fm)
           | Inr _ \<Rightarrow>
               (case hl_add (headers fm) blockHeader of
                  None \<Rightarrow> Inl (HeadersListAssertion, fm)
                | Some hl \<Rightarrow>
                    (let fm1 = fm\<lparr>headers := hl\<rparr>;
                         fm2 = snd (updatePreVotesPreCommits fm1 blockHeader);
                         fm3 = snd (updatePreVotedAndFinalizedHeight fm2)
                     in Inr (cleanup fm3)))))"

definition recompute :: "FinalityManager \<Rightarrow> FinalityManager" where
  "recompute fm =
     (let fm0 = fm\<lparr>state := Map.empty, chainMaxHeightPrevoted := 0,
                   preVotes := [], preCommits := []\<rparr>;
          fm1 = fold (\<lambda>header m. snd (updatePreVotesPreCommits m header))
                     (items (headers fm0)) fm0;
          fm2 = snd (updatePreVotedAndFinalizedHeight fm1)
      in cleanup fm2)"

definition removeBlockHeaders :: "FinalityManager \<Rightarrow> int \<Rightarrow> FinalityManager" where
  "removeBlockHeaders fm aboveHeight =
     recompute (fm\<lparr>headers := hl_remove (headers fm) aboveHeight\<rparr>)"

section \<open>P2P coordinator\<close>

text \<open>
  JavaScript objects with string keys, as far as the coordinator builds them: the public
  peer record is \<^verbatim>\<open>{ ipAddress, wsPort, ...peer.sharedState }\<close>, where a key of the spread
  object overrides an earlier one.
\<close>

datatype js_value = JNum int | JStr string | JBool bool

type_synonym js_object = "(string \<times> js_value) list"

definition obj_put :: "string \<Rightarrow> js_value \<Rightarrow> js_object \<Rightarrow> js_object" where
  "obj_put k v obj =
     (if k \<in> fst ` set obj then map (\<lambda>kv. if fst kv = k then (k, v) else kv) obj
      else obj @ [(k, v)])"

fun obj_spread :: "js_object \<Rightarrow> js_object \<Rightarrow> js_object" where
  "obj_spread obj [] = obj"
| "obj_spread obj (kv # kvs) = obj_spread (obj_put (fst kv) (snd kv) obj) kvs"

datatype ConnectionKind = INBOUND | OUTBOUND | NONE

record P2PInternalState =
  advertiseAddress :: bool
  connectionKind :: ConnectionKind

record P2PPeerInfo =
  peerId :: string
  ipAddress :: string
  wsPort :: int
  sharedState :: "js_object option"
  internalState :: "P2PInternalState option"

record P2PConfig =
  minimumPeerDiscoveryThreshold :: "int option"
  peerDiscoveryResponseLength :: "int option"
  wsMaxPayload :: "int option"
  maxPeerInfoSize :: "int option"

text \<open>\<^verbatim>\<open>x ? x : d\<close> on an optional number: \<^verbatim>\<open>undefined\<close> and 0 both give the default.\<close>

definition truthy_or :: "int option \<Rightarrow> int \<Rightarrow> int" where
  "truthy_or x d = (case x of None \<Rightarrow> d | Some v \<Rightarrow> if v = 0 then d else v)"

text \<open>
  Modelled from the spec: the constants of \<^verbatim>\<open>./constants\<close> are not among the sources. The
  specification's configuration table gives the defaults: \<open>wsMaxPayload\<close> 1 MiB,
  \<open>maxPeerInfoSize\<close> 20 KiB, \<open>maxPeerDiscoveryResponseLength\<close> 1000,
  \<open>minimumPeerDiscoveryThreshold\<close> 100.
\<close>

definition DEFAULT_WS_MAX_PAYLOAD :: int where
  "DEFAULT_WS_MAX_PAYLOAD = 1048576"

definition DEFAULT_MAX_PEER_INFO_SIZE :: int where
  "DEFAULT_MAX_PEER_INFO_SIZE = 20480"

definition DEFAULT_MAX_PEER_DISCOVERY_RESPONSE_LENGTH :: int where
  "DEFAULT_MAX_PEER_DISCOVERY_RESPONSE_LENGTH = 1000"

definition DEFAULT_MIN_PEER_DISCOVERY_THRESHOLD :: int where
  "DEFAULT_MIN_PEER_DISCOVERY_THRESHOLD = 100"

record GetPeersResponse =
  success :: bool
  peers :: "js_object list"

definition sanitizePeer :: "P2PPeerInfo \<Rightarrow> js_object" where
  "sanitizePeer peer =
     obj_spread [(''ipAddress'', JStr (ipAddress peer)), (''wsPort'', JNum (wsPort peer))]
                (case sharedState peer of None \<Rightarrow> [] | Some sh \<Rightarrow> sh)"

definition advertised :: "P2PPeerInfo \<Rightarrow> bool" where
  "advertised peer =
     (\<not> (case internalState peer of None \<Rightarrow> False | Some st \<Rightarrow> \<not> advertiseAddress st))"

text \<open>
  \<^verbatim>\<open>_handleGetPeersRequest\<close>. The peer book's random sample
  (\<^verbatim>\<open>this._peerBook.getRandomizedPeerList\<close>) and the byte size of the serialised list
  (\<^verbatim>\<open>getByteSize\<close> of \<^verbatim>\<open>./utils\<close>) are not among the sources and are parameters. The
  value is the argument of \<^verbatim>\<open>request.end\<close>.
\<close>

definition handleGetPeersRequest ::
  "(int \<Rightarrow> int \<Rightarrow> P2PPeerInfo list) \<Rightarrow> (js_object list \<Rightarrow> int) \<Rightarrow> P2PConfig
     \<Rightarrow> GetPeersResponse" where
  "handleGetPeersRequest getRandomizedPeerList getByteSize config =
     (let minimumPeerDiscoveryThreshold' =
            truthy_or (minimumPeerDiscoveryThreshold config)
                      DEFAULT_MIN_PEER_DISCOVERY_THRESHOLD;
          peerDiscoveryResponseLength' =
            truthy_or (peerDiscoveryResponseLength config)
                      DEFAULT_MAX_PEER_DISCOVERY_RESPONSE_LENGTH;
          wsMaxPayload' = truthy_or (wsMaxPayload config) DEFAULT_WS_MAX_PAYLOAD;
          maxPeerInforSize = truthy_or (maxPeerInfoSize config) DEFAULT_MAX_PEER_INFO_SIZE;
          safeMaxPeerInfoLength = DEFAULT_WS_MAX_PAYLOAD div maxPeerInforSize - 1;
          selectedPeers = getRandomizedPeerList minimumPeerDiscoveryThreshold'
                                                peerDiscoveryResponseLength';
          sanitizedPeerInfoList = map sanitizePeer (filter advertised selectedPeers)
      in \<lparr> success = True,
           peers = (if getByteSize sanitizedPeerInfoList < wsMaxPayload'
                    then sanitizedPeerInfoList
                    else js_slice0 sanitizedPeerInfoList safeMaxPeerInfoLength) \<rparr>)"

subsection \<open>Inbound connections\<close>

record ServerSocket =
  sock_id :: string
  sock_wsPort :: int
  info_id :: string
  info_protocolVersion :: string
  info_advertiseAddress :: bool

datatype close_status = DUPLICATE_CONNECTION

datatype close_reason = DUPLICATE_CONNECTION_REASON

datatype p2p_event =
    EVENT_FAILED_TO_ADD_INBOUND_PEER close_reason close_status string
  | EVENT_NEW_INBOUND_PEER P2PPeerInfo

text \<open>
  Modelled from the spec: the classes \<^verbatim>\<open>PeerPool\<close> and \<^verbatim>\<open>PeerBook\<close> are not among the
  sources. The pool is the table of live peers by peer id, and \<^verbatim>\<open>addInboundPeer\<close> ``adds to
  inbound''; the book holds a new and a tried table, and \<^verbatim>\<open>addPeer\<close> ``places the peer in
  newTable and fails with ExistingPeer if already present in either table''.
\<close>

type_synonym PeerPool = "(string \<times> P2PPeerInfo) list"

definition pool_getPeer :: "PeerPool \<Rightarrow> string \<Rightarrow> P2PPeerInfo option" where
  "pool_getPeer pool pid = map_of pool pid"

definition pool_addInboundPeer :: "PeerPool \<Rightarrow> P2PPeerInfo \<Rightarrow> PeerPool" where
  "pool_addInboundPeer pool info = pool @ [(peerId info, info)]"

record PeerBook =
  newPeers :: "P2PPeerInfo list"
  triedPeers :: "P2PPeerInfo list"

datatype book_error = ExistingPeerError P2PPeerInfo

definition book_addPeer :: "PeerBook \<Rightarrow> P2PPeerInfo \<Rightarrow> book_error + PeerBook" where
  "book_addPeer book info =
     (case find (\<lambda>p. peerId p = peerId info) (newPeers book @ triedPeers book) of
        Some existing \<Rightarrow> Inl (ExistingPeerError existing)
      | None \<Rightarrow> Inr (book\<lparr>newPeers := newPeers book @ [info]\<rparr>))"

text \<open>
  The coordinator's state, as far as \<^verbatim>\<open>start\<close>, \<^verbatim>\<open>stop\<close> and the connection handler touch
  it. \<open>disconnected\<close> records the calls of \<^verbatim>\<open>socket.disconnect\<close>, \<open>events\<close> the calls of
  \<^verbatim>\<open>this.emit\<close>, \<open>connectionHandlers\<close> the listeners registered on the master server.
\<close>

record P2P =
  isActive :: bool
  hasConnected :: bool
  bannedPeers :: "string list"
  whitelisted :: "P2PPeerInfo list"
  peerBook :: PeerBook
  peerPool :: PeerPool
  populatorIntervalId :: "nat option"
  populatorTicking :: bool
  populatorRuns :: nat
  seedDiscoveries :: nat
  serverIsReady :: bool
  connectionHandlers :: nat
  disconnected :: "(string \<times> close_status \<times> close_reason) list"
  events :: "p2p_event list"

definition disconnectSocketDueToFailedHandshake ::
  "P2P \<Rightarrow> ServerSocket \<Rightarrow> close_status \<Rightarrow> close_reason \<Rightarrow> P2P" where
  "disconnectSocketDueToFailedHandshake node socket statusCode closeReason =
     node\<lparr>disconnected := disconnected node @ [(sock_id socket, statusCode, closeReason)],
          events := events node
                      @ [EVENT_FAILED_TO_ADD_INBOUND_PEER closeReason statusCode (sock_id socket)]\<rparr>"

text \<open>The listener that \<^verbatim>\<open>_startPeerServer\<close> registers for \<^verbatim>\<open>'connection'\<close>.\<close>

definition onConnection :: "P2P \<Rightarrow> ServerSocket \<Rightarrow> P2P" where
  "onConnection node socket =
     (let incomingPeerInfo =
            \<lparr> peerId = info_id socket,
              ipAddress = sock_id socket,
              wsPort = sock_wsPort socket,
              sharedState = Some [(''protocolVersion'', JStr (info_protocolVersion socket))],
              internalState = Some \<lparr> advertiseAddress = info_advertiseAddress socket,
                                     connectionKind = INBOUND \<rparr> \<rparr>;
          existingPeer = pool_getPeer (peerPool node) (sock_id socket);
          node1 = (case existingPeer of
                     Some _ \<Rightarrow>
                       disconnectSocketDueToFailedHandshake node socket
                         DUPLICATE_CONNECTION DUPLICATE_CONNECTION_REASON
                   | None \<Rightarrow>
                       node\<lparr>peerPool := pool_addInboundPeer (peerPool node) incomingPeerInfo,
                            events := events node @ [EVENT_NEW_INBOUND_PEER incomingPeerInfo]\<rparr>)
      in case book_addPeer (peerBook node1) incomingPeerInfo of
           Inl (ExistingPeerError _) \<Rightarrow> node1
         | Inr book \<Rightarrow> node1\<lparr>peerBook := book\<rparr>)"

subsection \<open>\<^verbatim>\<open>start\<close> and \<^verbatim>\<open>stop\<close>\<close>

datatype p2p_error = NodeAlreadyActive | NodeNotActive | PopulatorAlreadyRunning

text \<open>
  \<^verbatim>\<open>_startPeerServer\<close> registers the connection listener and sets \<^verbatim>\<open>_isActive\<close> once the
  master server is ready; the awaited \<^verbatim>\<open>'ready'\<close> event is taken to have fired when the
  call returns.
\<close>

definition startPeerServer :: "P2P \<Rightarrow> P2P" where
  "startPeerServer node =
     node\<lparr>connectionHandlers := Suc (connectionHandlers node),
          serverIsReady := True,
          isActive := True\<rparr>"

definition startPopulator :: "P2P \<Rightarrow> (p2p_error \<times> P2P) + P2P" where
  "startPopulator node =
     (case populatorIntervalId node of
        Some _ \<Rightarrow> Inl (PopulatorAlreadyRunning, node)
      | None \<Rightarrow>
          Inr (node\<lparr>populatorIntervalId := Some (populatorRuns node),
                    populatorTicking := True,
                    populatorRuns := Suc (populatorRuns node)\<rparr>))"

definition stopPopulator :: "P2P \<Rightarrow> P2P" where
  "stopPopulator node =
     (case populatorIntervalId node of
        Some _ \<Rightarrow> node\<lparr>populatorTicking := False\<rparr>
      | None \<Rightarrow> node)"

text \<open>
  \<^verbatim>\<open>DEFAULT_MIN_TRIED_PEER_COUNT\<close> is a constant of \<^verbatim>\<open>./constants\<close>, not among the sources,
  and the specification gives it no value: it is a parameter.
\<close>

definition start :: "int \<Rightarrow> P2P \<Rightarrow> (p2p_error \<times> P2P) + P2P" where
  "start DEFAULT_MIN_TRIED_PEER_COUNT node =
     (if isActive node then Inl (NodeAlreadyActive, node)
      else
        (let node1 = startPeerServer node
         in if isActive node1 then
              startPopulator
                (if int (length (triedPeers (peerBook node1))) < DEFAULT_MIN_TRIED_PEER_COUNT
                 then node1\<lparr>seedDiscoveries := Suc (seedDiscoveries node1)\<rparr>
                 else node1)
            else Inr node1))"

definition stop :: "P2P \<Rightarrow> (p2p_error \<times> P2P) + P2P" where
  "stop node =
     (if \<not> isActive node then Inl (NodeNotActive, node)
      else
        (let node1 = node\<lparr>isActive := False\<rparr>;
             node2 = node1\<lparr>hasConnected := False\<rparr>;
             node3 = stopPopulator node2;
             node4 = node3\<lparr>peerPool := []\<rparr>
         in Inr (node4\<lparr>serverIsReady := False\<rparr>)))"

section \<open>Specification-side definitions\<close>

text \<open>
  The loop of the specification's \<open>minValidCommitHeight(h)\<close>, written from its pseudo-code:
  ``while needle \<open>\<ge>\<close> searchTill: if needle == current.maxHeightPreviouslyForged: prev =
  headerList.get(needle); if prev is absent, return 0; if prev.delegatePublicKey \<open>\<noteq>\<close>
  h.delegatePublicKey or prev.maxHeightPreviouslyForged \<open>\<ge>\<close> needle, return needle + 1;
  needle = prev.maxHeightPreviouslyForged; current = prev; else needle -= 1; return
  max(needle + 1, searchTill)''.
\<close>

function spec_walk :: "HeadersList \<Rightarrow> BlockHeader \<Rightarrow> int \<Rightarrow> int \<Rightarrow> BlockHeader \<Rightarrow> int" where
  "spec_walk headerList h searchTill needle current =
     (if \<not> needle \<ge> searchTill then max (needle + 1) searchTill
      else if needle \<noteq> maxHeightPreviouslyForged current
      then spec_walk headerList h searchTill (needle - 1) current
      else
        (case hl_get headerList needle of
           None \<Rightarrow> 0
         | Some prev \<Rightarrow>
             if delegatePublicKey prev \<noteq> delegatePublicKey h then needle + 1
             else if maxHeightPreviouslyForged prev \<ge> needle then needle + 1
             else spec_walk headerList h searchTill (maxHeightPreviouslyForged prev) prev))"
  by pat_completeness auto
termination
  by (relation "measure (\<lambda>(hl, h, st, n, cur). nat (n - st + 1))") auto

declare spec_walk.simps [simp del]

definition spec_minValidCommitHeight :: "FinalityManager \<Rightarrow> BlockHeader \<Rightarrow> int" where
  "spec_minValidCommitHeight fm h =
     spec_walk (headers fm) h
       (max (minHeight fm) (height h - processingThreshold fm))
       (max (maxHeightPreviouslyForged h) (height h - processingThreshold fm))
       h"

text \<open>
  The delegate state \<open>s\<close> of the specification (``initialized \<open>{maxPreVote:0,
  maxPreCommit:0}\<close>'') and the lower ends of its two ranges.
\<close>

definition delegateStateOf :: "FinalityManager \<Rightarrow> BlockHeader \<Rightarrow> DelegateState" where
  "delegateStateOf fm h =
     (case state fm (delegatePublicKey h) of
        Some ds \<Rightarrow> ds
      | None \<Rightarrow> \<lparr> maxPreVoteHeight = 0, maxPreCommitHeight = 0 \<rparr>)"

definition preCommitFrom :: "FinalityManager \<Rightarrow> BlockHeader \<Rightarrow> int" where
  "preCommitFrom fm h =
     max (max (delegateMinHeightActive h) (getMinValidHeightToPreCommit fm h))
         (maxPreCommitHeight (delegateStateOf fm h) + 1)"

definition preVoteFrom :: "FinalityManager \<Rightarrow> BlockHeader \<Rightarrow> int" where
  "preVoteFrom fm h =
     max (max (max (delegateMinHeightActive h) (maxHeightPreviouslyForged h + 1))
              (maxPreVoteHeight (delegateStateOf fm h) + 1))
         (height h - processingThreshold fm)"

text \<open>The highest stored height, 0 for an empty header list.\<close>

definition max_stored_height :: "FinalityManager \<Rightarrow> int" where
  "max_stored_height fm =
     (if items (headers fm) = [] then 0 else Max (height ` set (items (headers fm))))"

text \<open>
  A call sequence. A call of \<^verbatim>\<open>addBlockHeader\<close> that throws leaves the manager as the throw
  left it, and the caller goes on with the next call.
\<close>

datatype fm_call = AddBlockHeader BlockHeader | RemoveBlockHeaders int

fun after_call :: "fm_call \<Rightarrow> FinalityManager \<Rightarrow> FinalityManager" where
  "after_call (AddBlockHeader h) fm =
     (case addBlockHeader fm h of Inl (e, fm') \<Rightarrow> fm' | Inr fm' \<Rightarrow> fm')"
| "after_call (RemoveBlockHeaders aboveHeight) fm = removeBlockHeaders fm aboveHeight"

definition after_calls :: "fm_call list \<Rightarrow> FinalityManager \<Rightarrow> FinalityManager" where
  "after_calls calls fm = fold after_call calls fm"

text \<open>The replay loop of \<^verbatim>\<open>recompute\<close>: \<^verbatim>\<open>items.forEach(header => updatePreVotesPreCommits(header))\<close>.\<close>

definition replay :: "BlockHeader list \<Rightarrow> FinalityManager \<Rightarrow> FinalityManager" where
  "replay hs fm = fold (\<lambda>header m. snd (updatePreVotesPreCommits m header)) hs fm"

section \<open>Invariants of the manager\<close>

text \<open>
  The header list holds strictly ascending, positive heights, no pre-vote is recorded
  above the last header, and neither is the pre-voted tip.
\<close>

definition prevoted_inv :: "FinalityManager \<Rightarrow> bool" where
  "prevoted_inv fm \<longleftrightarrow>
     hsize (headers fm) \<ge> 1
     \<and> sorted_wrt (<) (map height (items (headers fm)))
     \<and> (\<forall>h \<in> set (items (headers fm)). height h \<ge> 1)
     \<and> (\<forall>k \<in> fst ` set (preVotes fm). k \<le> maxHeight fm)
     \<and> chainMaxHeightPrevoted fm \<le> maxHeight fm"


section \<open>Concrete inputs\<close>

definition hA1 :: BlockHeader where
  "hA1 = \<lparr> height = 1, delegatePublicKey = ''A'', maxHeightPreviouslyForged = 0,
           maxHeightPrevoted = 0, delegateMinHeightActive = 1 \<rparr>"

definition hA2 :: BlockHeader where
  "hA2 = \<lparr> height = 2, delegatePublicKey = ''A'', maxHeightPreviouslyForged = 1,
           maxHeightPrevoted = 1, delegateMinHeightActive = 1 \<rparr>"




text \<open>\<^verbatim>\<open>new FinalityManager({ finalizedHeight: f, activeDelegates: 1 })\<close>\<close>

definition fm_new :: "int \<Rightarrow> FinalityManager" where
  "fm_new f =
     \<lparr> activeDelegates = 1, preVoteThreshold = 1, preCommitThreshold = 1,
       processingThreshold = 2, maxHeaders = 5,
       headers = \<lparr> items = [], hsize = 5 \<rparr>,
       finalizedHeight = f, chainMaxHeightPrevoted = 0, state = Map.empty,
       preVotes = [], preCommits = [], emitted = [] \<rparr>"

text \<open>The same manager after \<open>hA1\<close>, and after \<open>hA1\<close> and \<open>hA2\<close>.\<close>

definition fm_after1 :: "int \<Rightarrow> FinalityManager" where
  "fm_after1 f =
     \<lparr> activeDelegates = 1, preVoteThreshold = 1, preCommitThreshold = 1,
       processingThreshold = 2, maxHeaders = 5,
       headers = \<lparr> items = [hA1], hsize = 5 \<rparr>,
       finalizedHeight = f, chainMaxHeightPrevoted = 1,
       state = [''A'' \<mapsto> \<lparr> maxPreVoteHeight = 1, maxPreCommitHeight = 0 \<rparr>],
       preVotes = [(1, 1)], preCommits = [], emitted = [] \<rparr>"

definition fm_after2 :: "int list \<Rightarrow> FinalityManager" where
  "fm_after2 ev =
     \<lparr> activeDelegates = 1, preVoteThreshold = 1, preCommitThreshold = 1,
       processingThreshold = 2, maxHeaders = 5,
       headers = \<lparr> items = [hA1, hA2], hsize = 5 \<rparr>,
       finalizedHeight = 1, chainMaxHeightPrevoted = 2,
       state = [''A'' \<mapsto> \<lparr> maxPreVoteHeight = 2, maxPreCommitHeight = 1 \<rparr>],
       preVotes = [(1, 1), (2, 1)], preCommits = [(1, 1)], emitted = ev \<rparr>"

text \<open>A peer book sample of forty copies of one advertised peer, 14000 bytes each.\<close>

definition examplePeer :: P2PPeerInfo where
  "examplePeer =
     \<lparr> peerId = ''10.0.0.1:5000'', ipAddress = ''10.0.0.1'', wsPort = 5000,
       sharedState = Some [(''height'', JNum 7)],
       internalState = Some \<lparr> advertiseAddress = True, connectionKind = OUTBOUND \<rparr> \<rparr>"

definition sample40 :: "int \<Rightarrow> int \<Rightarrow> P2PPeerInfo list" where
  "sample40 mn mx = replicate 40 examplePeer"

definition bytes14000 :: "js_object list \<Rightarrow> int" where
  "bytes14000 xs = 14000 * int (length xs)"

text \<open>A configuration that halves the payload limit and leaves the rest at the defaults.\<close>

definition config_half :: P2PConfig where
  "config_half =
     \<lparr> minimumPeerDiscoveryThreshold = None, peerDiscoveryResponseLength = None,
       wsMaxPayload = Some 524288, maxPeerInfoSize = None \<rparr>"

text \<open>A running node that has banned 10.0.0.9, and a socket from that address.\<close>

definition node_with_ban :: P2P where
  "node_with_ban =
     \<lparr> isActive = True, hasConnected = False, bannedPeers = [''10.0.0.9''],
       whitelisted = [], peerBook = \<lparr> newPeers = [], triedPeers = [] \<rparr>, peerPool = [],
       populatorIntervalId = Some 0, populatorTicking = True, populatorRuns = 1,
       seedDiscoveries = 1, serverIsReady = True, connectionHandlers = 1,
       disconnected = [], events = [] \<rparr>"

definition bannedSocket :: ServerSocket where
  "bannedSocket =
     \<lparr> sock_id = ''10.0.0.9'', sock_wsPort = 5001, info_id = ''10.0.0.9:5001'',
       info_protocolVersion = ''1.1'', info_advertiseAddress = True \<rparr>"

definition incomingPeerInfoOf :: "ServerSocket \<Rightarrow> P2PPeerInfo" where
  "incomingPeerInfoOf socket =
     \<lparr> peerId = info_id socket, ipAddress = sock_id socket, wsPort = sock_wsPort socket,
       sharedState = Some [(''protocolVersion'', JStr (info_protocolVersion socket))],
       internalState = Some \<lparr> advertiseAddress = info_advertiseAddress socket,
                              connectionKind = INBOUND \<rparr> \<rparr>"









section \<open>Lemmas about the tallies and the two loops\<close>

lemmas bft_eval = addBlockHeader_def validateBlockHeader_def verifyBlockHeaders_def
  findLastBlockForgedByDelegate_def hl_top_def hl_length_def hl_add_def hl_get_def hl_first_def
  hl_last_def updatePreVotesPreCommits_def getMinValidHeightToPreCommit_def minHeight_def
  updatePreVotedAndFinalizedHeight_def highest_key_reaching_def tally_ge_def tally_get0_def
  cleanup_def cleanup_tally_def js_slice0_def tally_delete_def Let_def
  tally_set_def is_array_index_def
  minValidLoop.simps preCommitLoop.simps preVoteLoop.simps

lemma map_of_overwrite:
  "k \<in> fst ` set t \<Longrightarrow>
   map_of (map (\<lambda>kv. if fst kv = k then (k, v) else kv) t) = (map_of t)(k \<mapsto> v)"
proof (induction t)
  case Nil
  then show ?case by simp
next
  case (Cons x t)
  show ?case
  proof (cases "k \<in> fst ` set t")
    case True
    then show ?thesis using Cons.IH by (cases x) (auto simp: fun_upd_twist)
  next
    case False
    then have fx: "fst x = k" using Cons.prems by auto
    have "map (\<lambda>kv. if fst kv = k then (k, v) else kv) t = t"
      using False by (induction t) auto
    then show ?thesis using fx by (cases x) auto
  qed
qed

lemma map_of_insert_index:
  "k \<notin> fst ` set t \<Longrightarrow> map_of (tally_insert_index k v t) = (map_of t)(k \<mapsto> v)"
proof (induction t)
  case Nil
  then show ?case by simp
next
  case (Cons x t)
  have ne: "fst x \<noteq> k" and nt: "k \<notin> fst ` set t" using Cons.prems by auto
  show ?case using Cons.IH [OF nt] ne by (cases x) (auto simp: fun_upd_twist)
qed

lemma map_of_snoc_new:
  "k \<notin> fst ` set t \<Longrightarrow> map_of (t @ [(k, v)]) = (map_of t)(k \<mapsto> v)"
proof (induction t)
  case Nil
  then show ?case by simp
next
  case (Cons x t)
  have ne: "fst x \<noteq> k" and nt: "k \<notin> fst ` set t" using Cons.prems by auto
  show ?case using Cons.IH [OF nt] ne by (cases x) (auto simp: fun_upd_twist)
qed

lemma map_of_tally_set: "map_of (tally_set k v t) = (map_of t)(k \<mapsto> v)"
proof (cases "k \<in> fst ` set t")
  case True
  then have "tally_set k v t = map (\<lambda>kv. if fst kv = k then (k, v) else kv) t"
    by (simp add: tally_set_def)
  then show ?thesis using map_of_overwrite [OF True] by simp
next
  case False
  show ?thesis
  proof (cases "is_array_index k")
    case True
    then have "tally_set k v t = tally_insert_index k v t"
      using False by (simp add: tally_set_def)
    then show ?thesis using map_of_insert_index [OF False] by simp
  next
    case nix: False
    then have "tally_set k v t = t @ [(k, v)]"
      using False by (simp add: tally_set_def)
    then show ?thesis using map_of_snoc_new [OF False] by simp
  qed
qed

lemma preCommitLoop_map_of:
  "map_of (fst (preCommitLoop pv th lo hi pc ds)) k =
     (if lo \<le> k \<and> k \<le> hi \<and> tally_ge pv k th then Some (tally_get0 pc k + 1) else map_of pc k)"
proof (induction pv th lo hi pc ds rule: preCommitLoop.induct)
  case (1 pv th j hi pc ds)
  show ?case
  proof (cases "j \<le> hi")
    case False
    then show ?thesis by (auto simp add: preCommitLoop.simps[of pv th j hi pc ds])
  next
    case True
    show ?thesis
    proof (cases "tally_ge pv j th")
      case ge: True
      show ?thesis
        using True ge "1.IH"(1)[OF True ge]
        by (cases "k = j")
           (auto simp: preCommitLoop.simps[of pv th j hi pc ds] map_of_tally_set tally_get0_def)
    next
      case nge: False
      show ?thesis
        using True nge "1.IH"(2)[OF True nge]
        by (cases "k = j") (auto simp: preCommitLoop.simps[of pv th j hi pc ds])
    qed
  qed
qed

lemma find_append_case:
  "find P (xs @ ys) = (case find P xs of None \<Rightarrow> find P ys | Some x \<Rightarrow> Some x)"
  by (induction xs) auto

lemma preCommitLoop_state:
  "snd (preCommitLoop pv th lo hi pc ds) =
     ds\<lparr>maxPreCommitHeight :=
          (case find (\<lambda>j. tally_ge pv j th) (rev [lo..hi]) of
             None \<Rightarrow> maxPreCommitHeight ds | Some j \<Rightarrow> j)\<rparr>"
proof (induction pv th lo hi pc ds rule: preCommitLoop.induct)
  case (1 pv th j hi pc ds)
  show ?case
  proof (cases "j \<le> hi")
    case False
    then show ?thesis by (auto simp add: preCommitLoop.simps[of pv th j hi pc ds])
  next
    case True
    have r: "rev [j..hi] = rev [j+1..hi] @ [j]" using True by (simp add: upto_rec1)
    show ?thesis
    proof (cases "tally_ge pv j th")
      case ge: True
      show ?thesis
        using True ge "1.IH"(1)[OF True ge]
        by (auto simp: preCommitLoop.simps[of pv th j hi pc ds] r find_append_case split: option.splits)
    next
      case nge: False
      show ?thesis
        using True nge "1.IH"(2)[OF True nge]
        by (auto simp: preCommitLoop.simps[of pv th j hi pc ds] r find_append_case split: option.splits)
    qed
  qed
qed

lemma preVoteLoop_map_of:
  "map_of (preVoteLoop lo hi pv) k =
     (if lo \<le> k \<and> k \<le> hi then Some (tally_get0 pv k + 1) else map_of pv k)"
proof (induction lo hi pv rule: preVoteLoop.induct)
  case (1 j hi pv)
  show ?case
  proof (cases "j \<le> hi")
    case False
    then show ?thesis by (auto simp add: preVoteLoop.simps[of j hi pv])
  next
    case True
    show ?thesis using True "1.IH"[OF True]
      by (cases "k = j")
         (auto simp: preVoteLoop.simps[of j hi pv] map_of_tally_set tally_get0_def)
  qed
qed

lemma updatePreVotesPreCommits_unfold:
  assumes "maxHeightPreviouslyForged h < height h"
  shows "updatePreVotesPreCommits fm h =
     (True,
      fm\<lparr>preVotes := preVoteLoop (preVoteFrom fm h) (height h) (preVotes fm),
         preCommits := fst (preCommitLoop (preVotes fm) (preVoteThreshold fm)
                              (preCommitFrom fm h) (height h - 1) (preCommits fm)
                              (delegateStateOf fm h)),
         state := (state fm)(delegatePublicKey h \<mapsto>
                    (snd (preCommitLoop (preVotes fm) (preVoteThreshold fm)
                            (preCommitFrom fm h) (height h - 1) (preCommits fm)
                            (delegateStateOf fm h)))\<lparr>maxPreVoteHeight := height h\<rparr>)\<rparr>)"
  using assms
  by (simp add: updatePreVotesPreCommits_def Let_def preVoteFrom_def preCommitFrom_def
                delegateStateOf_def preCommitLoop_state split_beta)

lemma keys_tally_set: "fst ` set (tally_set k v t) = insert k (fst ` set t)"
  by (simp add: dom_map_of_conv_image_fst [symmetric] map_of_tally_set)





lemma keys_preVoteLoop:
  "fst ` set (preVoteLoop lo hi pv) \<subseteq> fst ` set pv \<union> {lo..hi}"
proof (induction lo hi pv rule: preVoteLoop.induct)
  case (1 j hi pv)
  show ?case
  proof (cases "j \<le> hi")
    case False
    then show ?thesis by (simp add: preVoteLoop.simps[of j hi pv])
  next
    case True
    show ?thesis using True "1.IH"[OF True]
      by (subst preVoteLoop.simps) (auto simp: keys_tally_set)
  qed
qed

lemma set_fold_tally_delete: "set (fold tally_delete ks t) \<subseteq> set t"
proof (induction ks arbitrary: t)
  case Nil
  then show ?case by simp
next
  case (Cons a ks)
  have "set (fold tally_delete ks (tally_delete a t)) \<subseteq> set (tally_delete a t)"
    by (rule Cons.IH)
  also have "\<dots> \<subseteq> set t" by (auto simp: tally_delete_def)
  finally show ?case by simp
qed

lemma set_cleanup_tally: "set (cleanup_tally n t) \<subseteq> set t"
  unfolding cleanup_tally_def by (rule set_fold_tally_delete)


lemma updatePreVotesPreCommits_skip:
  "maxHeightPreviouslyForged h \<ge> height h \<Longrightarrow> updatePreVotesPreCommits fm h = (False, fm)"
  by (simp add: updatePreVotesPreCommits_def)

lemma keys_preVotes_update:
  "fst ` set (preVotes (snd (updatePreVotesPreCommits fm h)))
     \<subseteq> fst ` set (preVotes fm) \<union> {k. k \<le> height h}"
proof (cases "maxHeightPreviouslyForged h < height h")
  case True
  show ?thesis
    unfolding updatePreVotesPreCommits_unfold [OF True]
    using keys_preVoteLoop [of "preVoteFrom fm h" "height h" "preVotes fm"] by auto
next
  case False
  then show ?thesis by (simp add: updatePreVotesPreCommits_skip)
qed


lemma updatePreVotesPreCommits_keeps:
  "headers (snd (updatePreVotesPreCommits fm h)) = headers fm"
  "finalizedHeight (snd (updatePreVotesPreCommits fm h)) = finalizedHeight fm"
  "chainMaxHeightPrevoted (snd (updatePreVotesPreCommits fm h)) = chainMaxHeightPrevoted fm"
  "preVoteThreshold (snd (updatePreVotesPreCommits fm h)) = preVoteThreshold fm"
  "preCommitThreshold (snd (updatePreVotesPreCommits fm h)) = preCommitThreshold fm"
  "processingThreshold (snd (updatePreVotesPreCommits fm h)) = processingThreshold fm"
  "maxHeaders (snd (updatePreVotesPreCommits fm h)) = maxHeaders fm"
  "emitted (snd (updatePreVotesPreCommits fm h)) = emitted fm"
  by (cases "maxHeightPreviouslyForged h < height h";
      simp add: updatePreVotesPreCommits_unfold updatePreVotesPreCommits_skip)+


lemma replay_keeps:
  "headers (replay hs fm) = headers fm"
  "finalizedHeight (replay hs fm) = finalizedHeight fm"
  "chainMaxHeightPrevoted (replay hs fm) = chainMaxHeightPrevoted fm"
  "preVoteThreshold (replay hs fm) = preVoteThreshold fm"
  "preCommitThreshold (replay hs fm) = preCommitThreshold fm"
  "maxHeaders (replay hs fm) = maxHeaders fm"
  unfolding replay_def
  by (induction hs arbitrary: fm; simp add: updatePreVotesPreCommits_keeps)+


lemma updatePreVotedAndFinalizedHeight_tallies:
  "preVotes (snd (updatePreVotedAndFinalizedHeight fm)) = preVotes fm"
  "preCommits (snd (updatePreVotedAndFinalizedHeight fm)) = preCommits fm"
  "headers (snd (updatePreVotedAndFinalizedHeight fm)) = headers fm"
  "maxHeaders (snd (updatePreVotedAndFinalizedHeight fm)) = maxHeaders fm"
  by (simp_all add: updatePreVotedAndFinalizedHeight_def Let_def split: option.splits)

lemma recompute_replay:
  "recompute fm =
     cleanup (snd (updatePreVotedAndFinalizedHeight
       (replay (items (headers fm))
          (fm\<lparr>state := Map.empty, chainMaxHeightPrevoted := 0,
               preVotes := [], preCommits := []\<rparr>))))"
  by (simp add: recompute_def replay_def Let_def)

lemma DelegateState_overwrite:
  "(ds::DelegateState)\<lparr>maxPreCommitHeight := a, maxPreVoteHeight := b\<rparr>
     = \<lparr> maxPreVoteHeight = b, maxPreCommitHeight = a \<rparr>"
  by (cases ds) simp

section \<open>Lemmas about the header list and the pre-voted tip\<close>

lemma find_in_set: "find P xs = Some x \<Longrightarrow> x \<in> set xs \<and> P x"
  by (induction xs) (auto split: if_splits)

lemma highest_key_in_keys:
  "highest_key_reaching t th = Some k \<Longrightarrow> k \<in> fst ` set t"
  unfolding highest_key_reaching_def by (drule find_in_set) auto

lemma sorted_heights_last:
  "sorted_wrt (<) (map height xs) \<Longrightarrow> x \<in> set xs \<Longrightarrow> height x \<le> height (last xs)"
proof (induction xs)
  case Nil
  then show ?case by simp
next
  case (Cons a xs)
  show ?case
  proof (cases "xs = []")
    case True
    then show ?thesis using Cons.prems by simp
  next
    case False
    then have l: "last xs \<in> set xs" by simp
    have "\<forall>y \<in> set xs. height a < height y" using Cons.prems(1) by simp
    then have a: "height a \<le> height (last xs)" using l less_imp_le by blast
    have s: "sorted_wrt (<) (map height xs)" using Cons.prems(1) by simp
    show ?thesis
    proof (cases "x = a")
      case True
      then show ?thesis using a False by simp
    next
      case ne: False
      then have "x \<in> set xs" using Cons.prems(2) by simp
      then show ?thesis using Cons.IH [OF s] False by simp
    qed
  qed
qed

lemma hl_add_props:
  assumes "hsize hl \<ge> 1" and "sorted_wrt (<) (map height (items hl))"
    and "hl_add hl h = Some hl'"
  shows "items hl' \<noteq> []" "last (items hl') = h"
    "sorted_wrt (<) (map height (items hl'))"
    "set (items hl') \<subseteq> insert h (set (items hl))"
    "hsize hl' = hsize hl"
proof -
  let ?xs = "items hl @ [h]"
  have above: "\<forall>x \<in> set (items hl). height x < height h"
  proof (cases "items hl = []")
    case True
    then show ?thesis by simp
  next
    case False
    then have "height (last (items hl)) < height h"
      using assms(3) by (auto simp: hl_add_def split: if_splits)
    then show ?thesis using sorted_heights_last [OF assms(2)] by fastforce
  qed
  have s: "sorted_wrt (<) (map height ?xs)"
    using assms(2) above by (simp add: sorted_wrt_append)
  have eq: "items hl' = (if int (length ?xs) > hsize hl then tl ?xs else ?xs)"
    and hs: "hsize hl' = hsize hl"
    using assms(3) by (auto simp: hl_add_def Let_def split: if_splits)
  show "hsize hl' = hsize hl" by (rule hs)
  show "items hl' \<noteq> []"
  proof (cases "int (length ?xs) > hsize hl")
    case True
    then have "length ?xs \<ge> 2" using assms(1) by simp
    then have "items hl \<noteq> []" by auto
    then show ?thesis using eq True by (cases "items hl") auto
  next
    case False
    then show ?thesis using eq by simp
  qed
  show "last (items hl') = h"
  proof (cases "int (length ?xs) > hsize hl")
    case True
    then have "length ?xs \<ge> 2" using assms(1) by simp
    then have "items hl \<noteq> []" by auto
    then show ?thesis using eq True by (cases "items hl") auto
  next
    case False
    then show ?thesis using eq by simp
  qed
  show "sorted_wrt (<) (map height (items hl'))"
  proof (cases "int (length ?xs) > hsize hl")
    case True
    have "sorted_wrt (<) (tl (map height ?xs))"
      using s by (cases "map height ?xs") auto
    then show ?thesis using eq True by (simp add: map_tl)
  next
    case False
    then show ?thesis using eq s by simp
  qed
  show "set (items hl') \<subseteq> insert h (set (items hl))"
    using eq by (cases "items hl") (auto split: if_splits)
qed

lemma maxHeight_last:
  "items (headers fm) \<noteq> [] \<Longrightarrow> maxHeight fm = height (last (items (headers fm)))"
  by (simp add: maxHeight_def hl_last_def)

lemma maxHeight_empty: "items (headers fm) = [] \<Longrightarrow> maxHeight fm = 0"
  by (simp add: maxHeight_def hl_last_def)

lemma maxHeight_cong: "headers fm' = headers fm \<Longrightarrow> maxHeight fm' = maxHeight fm"
  by (simp add: maxHeight_def)

lemma chainMax_after_update:
  "chainMaxHeightPrevoted (snd (updatePreVotedAndFinalizedHeight fm))
     \<in> insert (chainMaxHeightPrevoted fm) (fst ` set (preVotes fm))"
  by (auto simp: updatePreVotedAndFinalizedHeight_def Let_def
           dest: highest_key_in_keys split: option.splits)

lemma cleanup_keeps:
  "headers (cleanup fm) = headers fm"
  "chainMaxHeightPrevoted (cleanup fm) = chainMaxHeightPrevoted fm"
  "finalizedHeight (cleanup fm) = finalizedHeight fm"
  "state (cleanup fm) = state fm"
  "maxHeaders (cleanup fm) = maxHeaders fm"
  "preCommitThreshold (cleanup fm) = preCommitThreshold fm"
  by (simp_all add: cleanup_def)

lemma keys_cleanup_preVotes:
  "fst ` set (preVotes (cleanup fm)) \<subseteq> fst ` set (preVotes fm)"
  using set_cleanup_tally [of "maxHeaders fm" "preVotes fm"] by (auto simp: cleanup_def)

text \<open>The four steps that follow the header-list update, for any manager.\<close>

lemma replay_preVote_keys:
  "\<forall>k \<in> fst ` set (preVotes fm). k \<le> b \<Longrightarrow> \<forall>h \<in> set hs. height h \<le> b \<Longrightarrow>
   \<forall>k \<in> fst ` set (preVotes (replay hs fm)). k \<le> b"
proof (induction hs arbitrary: fm)
  case Nil
  then show ?case by (simp add: replay_def)
next
  case (Cons h hs)
  have hb: "height h \<le> b" using Cons.prems(2) by simp
  have "\<forall>k \<in> fst ` set (preVotes (snd (updatePreVotesPreCommits fm h))). k \<le> b"
  proof
    fix k assume "k \<in> fst ` set (preVotes (snd (updatePreVotesPreCommits fm h)))"
    then have "k \<in> fst ` set (preVotes fm) \<or> k \<le> height h"
      using keys_preVotes_update [of fm h] by blast
    then show "k \<le> b" using Cons.prems(1) hb by auto
  qed
  moreover have "\<forall>h \<in> set hs. height h \<le> b" using Cons.prems(2) by simp
  ultimately have "\<forall>k \<in> fst ` set (preVotes (replay hs (snd (updatePreVotesPreCommits fm h)))). k \<le> b"
    by (rule Cons.IH)
  then show ?case by (simp add: replay_def)
qed

lemma finish_bounded:
  assumes "\<forall>k \<in> fst ` set (preVotes fm). k \<le> b" and "chainMaxHeightPrevoted fm \<le> b"
    and "\<forall>h \<in> set hs. height h \<le> b"
  shows "(\<forall>k \<in> fst ` set (preVotes
            (cleanup (snd (updatePreVotedAndFinalizedHeight (replay hs fm))))). k \<le> b)
       \<and> chainMaxHeightPrevoted
            (cleanup (snd (updatePreVotedAndFinalizedHeight (replay hs fm)))) \<le> b"
proof -
  define r where "r = replay hs fm"
  define u where "u = snd (updatePreVotedAndFinalizedHeight r)"
  have pv: "\<forall>k \<in> fst ` set (preVotes r). k \<le> b"
    unfolding r_def using assms(1,3) by (rule replay_preVote_keys)
  have cr: "chainMaxHeightPrevoted r \<le> b"
    unfolding r_def using assms(2) by (simp only: replay_keeps)
  have "chainMaxHeightPrevoted u = chainMaxHeightPrevoted r
        \<or> chainMaxHeightPrevoted u \<in> fst ` set (preVotes r)"
    unfolding u_def using chainMax_after_update [of r] by blast
  then have cm: "chainMaxHeightPrevoted u \<le> b" using pv cr by auto
  have pu: "preVotes u = preVotes r"
    unfolding u_def by (rule updatePreVotedAndFinalizedHeight_tallies)
  have 1: "\<forall>k \<in> fst ` set (preVotes (cleanup u)). k \<le> b"
  proof
    fix k assume "k \<in> fst ` set (preVotes (cleanup u))"
    then have "k \<in> fst ` set (preVotes u)" using keys_cleanup_preVotes [of u] by blast
    then have "k \<in> fst ` set (preVotes r)" by (simp only: pu)
    then show "k \<le> b" using pv by blast
  qed
  have 2: "chainMaxHeightPrevoted (cleanup u) \<le> b"
    using cm by (simp only: cleanup_keeps)
  show ?thesis using 1 2 unfolding u_def r_def by (rule conjI)
qed

lemma prevoted_inv_new:
  "new_FinalityManager f d = Some fm \<Longrightarrow> prevoted_inv fm"
  by (auto simp: new_FinalityManager_def prevoted_inv_def maxHeight_def hl_last_def
           split: if_splits)

lemma addBlockHeader_success:
  assumes "addBlockHeader fm h = Inr fm'"
  obtains hl where "hl_add (headers fm) h = Some hl" "height h \<ge> 1"
    "fm' = cleanup (snd (updatePreVotedAndFinalizedHeight (replay [h] (fm\<lparr>headers := hl\<rparr>))))"
  using assms
  by (auto simp: addBlockHeader_def validateBlockHeader_def replay_def Let_def
           split: sum.splits option.splits if_splits)

lemma prevoted_inv_add:
  assumes "prevoted_inv fm" and "addBlockHeader fm h = Inr fm'"
  shows "prevoted_inv fm'"
proof -
  from assms(2) obtain hl where hl: "hl_add (headers fm) h = Some hl" and h1: "height h \<ge> 1"
    and fm': "fm' = cleanup (snd (updatePreVotedAndFinalizedHeight
                                    (replay [h] (fm\<lparr>headers := hl\<rparr>))))"
    by (rule addBlockHeader_success)
  have sz: "hsize (headers fm) \<ge> 1" and so: "sorted_wrt (<) (map height (items (headers fm)))"
    and pos: "\<forall>x \<in> set (items (headers fm)). height x \<ge> 1"
    and pv: "\<forall>k \<in> fst ` set (preVotes fm). k \<le> maxHeight fm"
    and cm: "chainMaxHeightPrevoted fm \<le> maxHeight fm"
    using assms(1) by (auto simp: prevoted_inv_def)
  note P = hl_add_props [OF sz so hl]
  have hd: "headers fm' = hl"
    unfolding fm' by (simp add: cleanup_keeps updatePreVotedAndFinalizedHeight_tallies replay_keeps)
  have mh: "maxHeight fm' = height h"
    using P(1,2) hd by (simp add: maxHeight_last)
  have old: "maxHeight fm \<le> height h"
  proof (cases "items (headers fm) = []")
    case True
    then show ?thesis using h1 by (simp add: maxHeight_empty)
  next
    case False
    then show ?thesis using hl by (auto simp: maxHeight_last hl_add_def split: if_splits)
  qed
  have b: "(\<forall>k \<in> fst ` set (preVotes fm'). k \<le> height h)
           \<and> chainMaxHeightPrevoted fm' \<le> height h"
    unfolding fm'
    by (rule finish_bounded) (use pv cm old in \<open>auto\<close>)
  have pos': "\<forall>x \<in> set (items hl). height x \<ge> 1"
    using P(4) pos h1 by auto
  show ?thesis
    unfolding prevoted_inv_def using b mh hd P(3,5) sz pos' by simp
qed

lemma prevoted_inv_remove:
  assumes "prevoted_inv fm"
  shows "prevoted_inv (removeBlockHeaders fm a)"
proof -
  let ?hs = "filter (\<lambda>h. height h \<le> a) (items (headers fm))"
  let ?fm0 = "fm\<lparr>headers := hl_remove (headers fm) a,
               state := Map.empty, chainMaxHeightPrevoted := 0,
               preVotes := [], preCommits := []\<rparr>"
  let ?fm' = "removeBlockHeaders fm a"
  have eq: "?fm' = cleanup (snd (updatePreVotedAndFinalizedHeight (replay ?hs ?fm0)))"
    by (simp add: removeBlockHeaders_def recompute_replay hl_remove_def)
  have sz: "hsize (headers fm) \<ge> 1" and so: "sorted_wrt (<) (map height (items (headers fm)))"
    and pos: "\<forall>x \<in> set (items (headers fm)). height x \<ge> 1"
    using assms by (auto simp: prevoted_inv_def)
  have hd: "headers ?fm' = hl_remove (headers fm) a"
    unfolding eq by (simp add: cleanup_keeps updatePreVotedAndFinalizedHeight_tallies replay_keeps)
  have it: "items (headers ?fm') = ?hs" unfolding hd by (simp add: hl_remove_def)
  have so': "sorted_wrt (<) (map height ?hs)"
    using so by (auto simp: sorted_wrt_map intro: sorted_wrt_filter)
  have pos': "\<forall>x \<in> set ?hs. height x \<ge> 1" using pos by simp
  have le: "\<forall>x \<in> set ?hs. height x \<le> maxHeight ?fm'"
  proof
    fix x assume x: "x \<in> set ?hs"
    then have ne: "items (headers ?fm') \<noteq> []"
      unfolding it by (auto simp: filter_empty_conv)
    show "height x \<le> maxHeight ?fm'"
      unfolding maxHeight_last [OF ne] it using sorted_heights_last [OF so' x] .
  qed
  have nn: "0 \<le> maxHeight ?fm'"
  proof (cases "?hs = []")
    case True
    then show ?thesis using it by (simp add: maxHeight_empty)
  next
    case False
    then have "last ?hs \<in> set ?hs" by (rule last_in_set)
    then have "1 \<le> height (last ?hs)" using pos' by blast
    then show ?thesis using False it by (simp add: maxHeight_last)
  qed
  define B where "B = maxHeight ?fm'"
  have b: "(\<forall>k \<in> fst ` set (preVotes
              (cleanup (snd (updatePreVotedAndFinalizedHeight (replay ?hs ?fm0))))). k \<le> B)
           \<and> chainMaxHeightPrevoted
               (cleanup (snd (updatePreVotedAndFinalizedHeight (replay ?hs ?fm0)))) \<le> B"
  proof (rule finish_bounded)
    show "\<forall>k \<in> fst ` set (preVotes ?fm0). k \<le> B" by simp
    show "chainMaxHeightPrevoted ?fm0 \<le> B" using nn by (simp add: B_def)
    show "\<forall>h \<in> set ?hs. height h \<le> B" using le by (simp only: B_def)
  qed
  have b': "(\<forall>k \<in> fst ` set (preVotes ?fm'). k \<le> maxHeight ?fm')
           \<and> chainMaxHeightPrevoted ?fm' \<le> maxHeight ?fm'"
    using b unfolding B_def eq [symmetric] .
  have "hsize (headers ?fm') \<ge> 1" unfolding hd using sz by (simp add: hl_remove_def)
  moreover have "sorted_wrt (<) (map height (items (headers ?fm')))" unfolding it by (rule so')
  moreover have "\<forall>h \<in> set (items (headers ?fm')). height h \<ge> 1" unfolding it by (rule pos')
  ultimately show ?thesis
    unfolding prevoted_inv_def using b' by blast
qed

lemma prevoted_inv_after_call:
  "prevoted_inv fm \<Longrightarrow> prevoted_inv (after_call c fm)"
proof (cases c)
  case (AddBlockHeader h)
  assume i: "prevoted_inv fm"
  show ?thesis
  proof (cases "addBlockHeader fm h")
    case (Inl a)
    obtain e fm1 where a: "a = (e, fm1)" by (cases a)
    have "fm1 = fm" using Inl a by (auto simp: addBlockHeader_def Let_def split: sum.splits option.splits)
    then show ?thesis using i Inl a AddBlockHeader by simp
  next
    case (Inr fm')
    then show ?thesis using i AddBlockHeader prevoted_inv_add [OF i Inr] by simp
  qed
next
  case (RemoveBlockHeaders a)
  assume "prevoted_inv fm"
  then show ?thesis using RemoveBlockHeaders prevoted_inv_remove by simp
qed

lemma prevoted_inv_after_calls:
  "prevoted_inv fm \<Longrightarrow> prevoted_inv (after_calls cs fm)"
  unfolding after_calls_def
  by (induction cs arbitrary: fm) (simp_all add: prevoted_inv_after_call)

lemma max_stored_height_sorted:
  assumes "sorted_wrt (<) (map height (items (headers fm)))"
  shows "max_stored_height fm = maxHeight fm"
proof (cases "items (headers fm) = []")
  case True
  then show ?thesis by (simp add: max_stored_height_def maxHeight_empty)
next
  case False
  have "Max (height ` set (items (headers fm))) = height (last (items (headers fm)))"
  proof (rule Max_eqI)
    show "finite (height ` set (items (headers fm)))" by simp
    show "\<And>y. y \<in> height ` set (items (headers fm)) \<Longrightarrow> y \<le> height (last (items (headers fm)))"
      using sorted_heights_last [OF assms] by auto
    show "height (last (items (headers fm))) \<in> height ` set (items (headers fm))"
      using False by simp
  qed
  then show ?thesis using False by (simp add: max_stored_height_def maxHeight_last)
qed

section \<open>Lemmas about the highest committed height and the trimming\<close>




























section \<open>Evaluation at the concrete inputs\<close>

lemma new_fm_eval: "new_FinalityManager f 1 = Some (fm_new f)"
  by (simp add: new_FinalityManager_def fm_new_def ceil_two_thirds_def BFT_ROUND_THRESHOLD_def)

lemma add_hA1_eval: "addBlockHeader (fm_new f) hA1 = Inr (fm_after1 f)"
  by (simp add: bft_eval fm_new_def fm_after1_def hA1_def)

lemma add_hA2_eval: "f \<noteq> 1 \<Longrightarrow> addBlockHeader (fm_after1 f) hA2 = Inr (fm_after2 [1])"
  by (simp add: bft_eval fm_after2_def fm_after1_def hA1_def hA2_def)

lemma remove_eval:
  "removeBlockHeaders (fm_after2 [1]) 1 = (fm_after1 1)\<lparr>emitted := [1]\<rparr>"
  by (simp add: removeBlockHeaders_def recompute_def hl_remove_def bft_eval
        fm_after2_def fm_after1_def hA1_def hA2_def)






section \<open>Monotonicity of the finalized height\<close>




section \<open>Errors leave the manager untouched\<close>

text \<open>
  C2. If \<^verbatim>\<open>addBlockHeader(h)\<close> raises an error, the manager that the throw leaves behind
  (headers, state, preVotes, preCommits, chainMaxHeightPrevoted, finalizedHeight and the
  rest) is the manager from before the call: every throw of the call comes before its first
  mutation.
\<close>

theorem addBlockHeader_error_atomic:
  "addBlockHeader fm h = Inl (e, fm') \<Longrightarrow> fm' = fm"
  by (auto simp: addBlockHeader_def Let_def split: sum.splits option.splits)

theorem addBlockHeader_error_atomic_witness:
  "addBlockHeader (fm_after1 0) hA1 = Inl (BFTForkChoiceRuleError, fm_after1 0)
   \<and> fm_after1 0 = fm_after1 0"
proof -
  have h: "addBlockHeader (fm_after1 0) hA1 = Inl (BFTForkChoiceRuleError, fm_after1 0)"
    by (simp add: bft_eval fm_after1_def hA1_def)
  show ?thesis using h addBlockHeader_error_atomic [OF h] by simp
qed

section \<open>An equivocating header casts no votes\<close>




section \<open>The minimum height to pre-commit\<close>

text \<open>
  C4. \<^verbatim>\<open>_getMinValidHeightToPreCommit(h)\<close> computes the specification's
  \<open>minValidCommitHeight(h)\<close> loop, from the same \<open>needle\<close> and \<open>searchTill\<close>, for every manager
  and every header.
\<close>

theorem minValidHeight_refines_spec: "getMinValidHeightToPreCommit fm h = spec_minValidCommitHeight fm h"
proof -
  have "minValidLoop hl h st n cur = spec_walk hl h st n cur" for hl st n cur
  proof (induction hl h st n cur rule: minValidLoop.induct)
    case (1 hl header st n cur)
    show ?case
      using "1.IH"
      by (subst minValidLoop.simps, subst spec_walk.simps) (auto split: option.splits)
  qed
  then show ?thesis
    by (simp add: getMinValidHeightToPreCommit_def spec_minValidCommitHeight_def Let_def)
qed

section \<open>Pre-commits before pre-votes\<close>

text \<open>
  C5. For a header \<open>h\<close> with \<open>maxHeightPreviouslyForged < height\<close>, vote accounting adds one
  pre-commit at each height \<open>j\<close> of \<open>[preCommitFrom, h.height - 1]\<close> exactly when the pre-vote
  tally of \<open>j\<close> as it stood before the call reaches the threshold, and leaves the delegate's
  \<open>maxPreCommitHeight\<close> at the highest such \<open>j\<close>; it adds one pre-vote at each height of
  \<open>[preVoteFrom, h.height]\<close> and sets \<open>maxPreVoteHeight\<close> to \<open>h.height\<close>.
\<close>

theorem vote_accounting_order:
  assumes "maxHeightPreviouslyForged h < height h"
  shows "fst (updatePreVotesPreCommits fm h) = True
    \<and> map_of (preCommits (snd (updatePreVotesPreCommits fm h))) j =
        (if preCommitFrom fm h \<le> j \<and> j \<le> height h - 1
            \<and> tally_ge (preVotes fm) j (preVoteThreshold fm)
         then Some (tally_get0 (preCommits fm) j + 1)
         else map_of (preCommits fm) j)
    \<and> map_of (preVotes (snd (updatePreVotesPreCommits fm h))) j =
        (if preVoteFrom fm h \<le> j \<and> j \<le> height h
         then Some (tally_get0 (preVotes fm) j + 1)
         else map_of (preVotes fm) j)
    \<and> state (snd (updatePreVotesPreCommits fm h)) =
        (state fm)(delegatePublicKey h \<mapsto>
           \<lparr> maxPreVoteHeight = height h,
             maxPreCommitHeight =
               (case find (\<lambda>j. tally_ge (preVotes fm) j (preVoteThreshold fm))
                          (rev [preCommitFrom fm h .. height h - 1]) of
                  None \<Rightarrow> maxPreCommitHeight (delegateStateOf fm h)
                | Some j \<Rightarrow> j) \<rparr>)"
  unfolding updatePreVotesPreCommits_unfold [OF assms]
  by (simp add: preCommitLoop_map_of preVoteLoop_map_of preCommitLoop_state
                DelegateState_overwrite)

theorem vote_accounting_order_witness:
  "maxHeightPreviouslyForged hA2 < height hA2
   \<and> map_of (preCommits (snd (updatePreVotesPreCommits
                (fm_after1 0\<lparr>headers := \<lparr> items = [hA1, hA2], hsize = 5 \<rparr>\<rparr>) hA2))) 1 = Some 1
   \<and> map_of (preVotes (snd (updatePreVotesPreCommits
                (fm_after1 0\<lparr>headers := \<lparr> items = [hA1, hA2], hsize = 5 \<rparr>\<rparr>) hA2))) 1 = Some 1
   \<and> map_of (preVotes (snd (updatePreVotesPreCommits
                (fm_after1 0\<lparr>headers := \<lparr> items = [hA1, hA2], hsize = 5 \<rparr>\<rparr>) hA2))) 2 = Some 1"
proof -
  let ?fm = "fm_after1 0\<lparr>headers := \<lparr> items = [hA1, hA2], hsize = 5 \<rparr>\<rparr>"
  have h: "maxHeightPreviouslyForged hA2 < height hA2" by (simp add: hA2_def)
  have c: "preCommitFrom ?fm hA2 = 1"
    by (simp add: preCommitFrom_def delegateStateOf_def getMinValidHeightToPreCommit_def
          minHeight_def hl_first_def hl_get_def minValidLoop.simps fm_after1_def hA1_def hA2_def)
  have v: "preVoteFrom ?fm hA2 = 2"
    by (simp add: preVoteFrom_def delegateStateOf_def fm_after1_def hA2_def)
  have pvs: "preVotes ?fm = [(1, 1)]" "preCommits ?fm = []" "preVoteThreshold ?fm = 1"
    by (simp_all add: fm_after1_def)
  have hh: "height hA2 = 2" by (simp add: hA2_def)
  show ?thesis
    using h vote_accounting_order [OF h, of ?fm 1] vote_accounting_order [OF h, of ?fm 2]
    by (simp add: c v pvs hh tally_ge_def tally_get0_def)
qed

section \<open>Removing headers and replaying\<close>




section \<open>The pre-voted tip stays within the header list\<close>

text \<open>
  C7. In every manager reached from the constructor by \<^verbatim>\<open>addBlockHeader\<close> and
  \<^verbatim>\<open>removeBlockHeaders\<close> calls, \<open>chainMaxHeightPrevoted\<close> is at most the highest stored
  height, taken as 0 when the header list is empty.
\<close>

theorem chainMaxHeightPrevoted_bounded:
  assumes "new_FinalityManager f d = Some fm0"
  shows "chainMaxHeightPrevoted (after_calls calls fm0) \<le> max_stored_height (after_calls calls fm0)"
proof -
  have "prevoted_inv (after_calls calls fm0)"
    using prevoted_inv_new [OF assms] by (rule prevoted_inv_after_calls)
  then show ?thesis
    using max_stored_height_sorted [of "after_calls calls fm0"]
    by (simp add: prevoted_inv_def)
qed

theorem chainMaxHeightPrevoted_bounded_witness:
  "new_FinalityManager 0 1 = Some (fm_new 0)
   \<and> chainMaxHeightPrevoted
        (after_calls [AddBlockHeader hA1, AddBlockHeader hA2, RemoveBlockHeaders 1] (fm_new 0))
       \<le> max_stored_height
        (after_calls [AddBlockHeader hA1, AddBlockHeader hA2, RemoveBlockHeaders 1] (fm_new 0))
   \<and> chainMaxHeightPrevoted
        (after_calls [AddBlockHeader hA1, AddBlockHeader hA2, RemoveBlockHeaders 1] (fm_new 0)) = 1"
proof -
  have n: "new_FinalityManager 0 1 = Some (fm_new 0)" by (rule new_fm_eval)
  have v: "chainMaxHeightPrevoted
        (after_calls [AddBlockHeader hA1, AddBlockHeader hA2, RemoveBlockHeaders 1] (fm_new 0)) = 1"
  proof -
    have "after_calls [AddBlockHeader hA1, AddBlockHeader hA2, RemoveBlockHeaders 1] (fm_new 0)
            = (fm_after1 1)\<lparr>emitted := [1]\<rparr>"
      by (simp add: after_calls_def add_hA1_eval add_hA2_eval remove_eval)
    then show ?thesis by (simp add: fm_after1_def)
  qed
  show ?thesis
    using n v chainMaxHeightPrevoted_bounded
      [OF n, of "[AddBlockHeader hA1, AddBlockHeader hA2, RemoveBlockHeaders 1]"]
    by blast
qed

section \<open>The peer list response\<close>

text \<open>
  C8. The claim is that a response whose serialised size is not below the configured
  \<open>wsMaxPayload\<close> holds the first \<open>floor(wsMaxPayload / maxPeerInfoSize) - 1\<close> entries. The
  handler divides the default payload limit instead of the configured one: with
  \<open>wsMaxPayload = 524288\<close> and forty advertised peers of 14000 bytes each it answers with
  all forty, where the configured limit allows 24.
\<close>

theorem getPeers_trim_ignores_configured_payload:
  "peers (handleGetPeersRequest sample40 bytes14000 config_half)
     = replicate 40 (sanitizePeer examplePeer)
   \<and> \<not> bytes14000 (map sanitizePeer (filter advertised (sample40 100 1000))) < 524288
   \<and> truthy_or (wsMaxPayload config_half) DEFAULT_WS_MAX_PAYLOAD
        div truthy_or (maxPeerInfoSize config_half) DEFAULT_MAX_PEER_INFO_SIZE - 1 = 24
   \<and> DEFAULT_WS_MAX_PAYLOAD
        div truthy_or (maxPeerInfoSize config_half) DEFAULT_MAX_PEER_INFO_SIZE - 1 = 50"
  by (simp add: handleGetPeersRequest_def Let_def sample40_def bytes14000_def config_half_def
        truthy_or_def DEFAULT_WS_MAX_PAYLOAD_def DEFAULT_MAX_PEER_INFO_SIZE_def
        DEFAULT_MIN_PEER_DISCOVERY_THRESHOLD_def DEFAULT_MAX_PEER_DISCOVERY_RESPONSE_LENGTH_def
        js_slice0_def advertised_def examplePeer_def)

section \<open>Inbound connections\<close>

text \<open>
  C9. The claim is that the connection handler rejects a socket whose address is banned
  and not whitelisted. The handler does not look at the banned addresses:
  \<^verbatim>\<open>_bannedPeers\<close> is written by the ban and unban handlers and read nowhere. A socket from a
  banned address that is not whitelisted and not yet in the pool is not disconnected; it
  is added to the pool and announced with \<open>NewInboundPeer\<close>.
\<close>

theorem banned_inbound_connection_accepted:
  "sock_id bannedSocket \<in> set (bannedPeers node_with_ban)
   \<and> whitelisted node_with_ban = []
   \<and> disconnected (onConnection node_with_ban bannedSocket) = []
   \<and> peerPool (onConnection node_with_ban bannedSocket)
        = [(''10.0.0.9:5001'', incomingPeerInfoOf bannedSocket)]
   \<and> events (onConnection node_with_ban bannedSocket)
        = [EVENT_NEW_INBOUND_PEER (incomingPeerInfoOf bannedSocket)]"
  by (simp add: onConnection_def Let_def node_with_ban_def bannedSocket_def pool_getPeer_def
        pool_addInboundPeer_def book_addPeer_def incomingPeerInfoOf_def
        split: sum.splits book_error.splits)

section \<open>Starting twice, stopping twice\<close>

text \<open>
  C10. \<^verbatim>\<open>start()\<close> on an active node and \<^verbatim>\<open>stop()\<close> on an inactive node throw, and the node
  that the throw leaves behind is the node from before the call.
\<close>

theorem start_stop_guards:
  "(isActive node \<longrightarrow> start c node = Inl (NodeAlreadyActive, node))
   \<and> (\<not> isActive node \<longrightarrow> stop node = Inl (NodeNotActive, node))"
  by (simp add: start_def stop_def)

theorem start_stop_guards_witness:
  "isActive node_with_ban
   \<and> start 100 node_with_ban = Inl (NodeAlreadyActive, node_with_ban)
   \<and> \<not> isActive (node_with_ban\<lparr>isActive := False\<rparr>)
   \<and> stop (node_with_ban\<lparr>isActive := False\<rparr>)
       = Inl (NodeNotActive, node_with_ban\<lparr>isActive := False\<rparr>)"
proof -
  have a: "isActive node_with_ban" by (simp add: node_with_ban_def)
  have b: "\<not> isActive (node_with_ban\<lparr>isActive := False\<rparr>)" by simp
  show ?thesis
    using a b start_stop_guards [of node_with_ban 100]
      start_stop_guards [of "node_with_ban\<lparr>isActive := False\<rparr>" 100]
    by simp
qed

end
